theory Spec2Isabelle
  imports Complex_Main
begin

section \<open>Per-session streaming buffer and transcript stabiliser of \<open>websocket_server.py\<close>\<close>

text \<open>
  The theory embeds class \<open>ServeClient\<close>: the audio buffer (\<open>add_frames\<close>), one
  iteration of the transcription loop (\<open>speech_to_text\<close>), the stabiliser
  (\<open>update_segments\<close>) and the formatter (\<open>fill_output\<close>).

  Conventions of the embedding.
  \<^item> Python floats (offsets, durations, clock readings) are exact real numbers; no statement
    below depends on rounding.
  \<^item> Strings are lists of 8-bit characters, read as ASCII text.
  \<^item> The instance attributes that \<open>__init__\<close> sets once and nothing reassigns
    (\<open>pick_previous_segments\<close>, \<open>show_prev_out_thresh\<close>, \<open>add_pause_thresh\<close>, the
    wrapper's width) are constants.
  \<^item> \<open>textwrap.TextWrapper(width=w).wrap\<close> and the recognition engine are not code of this
    file: the first is a parameter \<open>wrap\<close>, the second a parameter \<open>transcribe\<close> of each
    loop iteration.
  \<^item> \<open>add_frames\<close> and a loop iteration are atomic with respect to each other; reachable
    states are those obtained by interleaving whole calls.
\<close>

subsection \<open>Python primitives\<close>

datatype py_error = IndexError

text \<open>\<open>int(x)\<close> on a float truncates towards zero.\<close>

definition py_int :: "real \<Rightarrow> int" where
  "py_int x = (if 0 \<le> x then \<lfloor>x\<rfloor> else \<lceil>x\<rceil>)"

text \<open>\<open>xs[k:]\<close>: a negative \<open>k\<close> counts from the end, and a start before the first
  element is the first element.\<close>

definition py_slice_from :: "int \<Rightarrow> 'a list \<Rightarrow> 'a list" where
  "py_slice_from k xs =
     (if 0 \<le> k then drop (nat k) xs else drop (length xs - nat (- k)) xs)"

text \<open>\<open>sep.join(xs)\<close>.\<close>

fun py_join :: "string \<Rightarrow> string list \<Rightarrow> string" where
  "py_join sep [] = []"
| "py_join sep [x] = x"
| "py_join sep (x # y # ys) = x @ sep @ py_join sep (y # ys)"

text \<open>\<open>str.isspace\<close> on one ASCII character: tab, newline, vertical tab, form feed,
  carriage return, the four separators 28 to 31, and the space.\<close>

definition py_isspace :: "char \<Rightarrow> bool" where
  "py_isspace c =
     (let n = (of_char c :: nat) in (9 \<le> n \<and> n \<le> 13) \<or> (28 \<le> n \<and> n \<le> 31) \<or> n = 32)"

text \<open>\<open>str.strip()\<close>: leading and trailing whitespace removed.\<close>

definition strip :: "string \<Rightarrow> string" where
  "strip s = rev (dropWhile py_isspace (rev (dropWhile py_isspace s)))"

text \<open>\<open>str.lower()\<close> on ASCII: \<open>A\<close> to \<open>Z\<close> move to \<open>a\<close> to \<open>z\<close>.\<close>

definition lower_char :: "char \<Rightarrow> char" where
  "lower_char c =
     (let n = (of_char c :: nat) in if 65 \<le> n \<and> n \<le> 90 then char_of (n + 32) else c)"

definition lower :: "string \<Rightarrow> string" where
  "lower s = map lower_char s"

subsection \<open>Session state\<close>

definition RATE :: nat where
  "RATE = 16000"

definition pick_previous_segments :: nat where
  "pick_previous_segments = 2"

definition show_prev_out_thresh :: real where
  "show_prev_out_thresh = 5"

definition add_pause_thresh :: real where
  "add_pause_thresh = 3"

definition wrapper_width :: nat where
  "wrapper_width = 50"

type_synonym sample = real

text \<open>The fields of \<open>ServeClient\<close> that the buffer, the loop and the stabiliser read or
  write. \<open>text_lines\<close> is \<open>self.text\<close> and \<open>exit_flag\<close> is \<open>self.exit\<close>.\<close>

record session =
  timestamp_offset :: real
  frames_np :: "sample list option"
  frames_offset :: real
  text_lines :: "string list"
  current_out :: string
  prev_out :: string
  t_start :: "real option"
  exit_flag :: bool
  same_output_threshold :: nat

definition ServeClient_init :: session where
  "ServeClient_init =
     \<lparr>timestamp_offset = 0, frames_np = None, frames_offset = 0, text_lines = [],
      current_out = [], prev_out = [], t_start = None, exit_flag = False,
      same_output_threshold = 0\<rparr>"

text \<open>A segment returned by the engine (\<open>s.text\<close>, \<open>s.start\<close>, \<open>s.end\<close>) and an entry of
  the transcript that \<open>update_segments\<close> returns (keys \<open>start\<close>, \<open>end\<close>, \<open>text\<close>).\<close>

record segment =
  seg_text :: string
  seg_start :: real
  seg_end :: real

record transcript_line =
  line_start :: real
  line_end :: real
  line_text :: string

subsection \<open>\<open>fill_output\<close>\<close>

text \<open>The loop of lines 105 to 110: an empty entry clears what was gathered so far.\<close>

fun gather_text :: "string list \<Rightarrow> string \<Rightarrow> string" where
  "gather_text [] txt = txt"
| "gather_text (seg # segs) txt = gather_text segs (if seg = [] then [] else txt @ seg)"

text \<open>\<open>"".join(text + output)\<close> joins the characters of one string and is that string.\<close>

definition fill_output :: "(nat \<Rightarrow> string \<Rightarrow> string list) \<Rightarrow> session \<Rightarrow> string \<Rightarrow> string" where
  "fill_output wrap s output =
     (let pick_prev = min (length (text_lines s)) pick_previous_segments;
          txt = gather_text (py_slice_from (- int pick_prev) (text_lines s)) [];
          wrapped = py_slice_from (- 2) (wrap wrapper_width (txt @ output))
      in py_join '' '' wrapped)"

subsection \<open>\<open>add_frames\<close>\<close>

text \<open>Lines 116 to 118: a buffer of more than 45 seconds loses its first
  \<open>int(30*RATE)\<close> samples and \<open>frames_offset\<close> grows by \<open>45.0\<close>.\<close>

definition evict_frames :: "session \<Rightarrow> session" where
  "evict_frames s =
     (case frames_np s of
        None \<Rightarrow> s
      | Some fs \<Rightarrow>
          if length fs > 45 * RATE
          then s\<lparr>frames_offset := frames_offset s + 45,
                 frames_np := Some (py_slice_from (py_int (30 * of_nat RATE)) fs)\<rparr>
          else s)"

text \<open>Lines 119 to 122, after the eviction.\<close>

definition add_frames :: "sample list \<Rightarrow> session \<Rightarrow> session" where
  "add_frames frame_np s =
     (let s1 = evict_frames s
      in case frames_np s1 of
           None \<Rightarrow> s1\<lparr>frames_np := Some frame_np\<rparr>
         | Some fs \<Rightarrow> s1\<lparr>frames_np := Some (fs @ frame_np)\<rparr>)"

subsection \<open>\<open>update_segments\<close>\<close>

text \<open>The loop of lines 210 to 222 over \<open>segments[:-1]\<close>; \<open>ts\<close> is
  \<open>self.timestamp_offset\<close>, which the loop does not change. The accumulator is
  \<open>self.text\<close>, \<open>transcript\<close> and \<open>offset\<close>.\<close>

fun complete_segments ::
  "real \<Rightarrow> real \<Rightarrow> segment list \<Rightarrow> string list \<times> transcript_line list \<times> real option
     \<Rightarrow> string list \<times> transcript_line list \<times> real option" where
  "complete_segments ts duration [] acc = acc"
| "complete_segments ts duration (g # gs) (txt, transcript, offset) =
     complete_segments ts duration gs
       (txt @ [seg_text g],
        transcript @ [\<lparr>line_start = ts + seg_start g,
                       line_end = ts + min duration (seg_end g),
                       line_text = seg_text g\<rparr>],
        Some (min duration (seg_end g)))"

text \<open>Lines 228 to 231.\<close>

definition count_repeat :: "session \<Rightarrow> session" where
  "count_repeat s =
     (if strip (current_out s) = strip (prev_out s) \<and> current_out s \<noteq> []
      then s\<lparr>same_output_threshold := same_output_threshold s + 1\<rparr>
      else s\<lparr>same_output_threshold := 0\<rparr>)"

text \<open>Lines 233 to 247, on the state, the transcript and the offset so far.\<close>

definition promote_or_remember ::
  "real \<Rightarrow> session \<times> transcript_line list \<times> real option
     \<Rightarrow> session \<times> transcript_line list \<times> real option" where
  "promote_or_remember duration = (\<lambda>(s, transcript, offset).
     if same_output_threshold s > 5
     then
       (let (s1, transcript1) =
              (if text_lines s = []
                  \<or> lower (strip (last (text_lines s))) \<noteq> lower (strip (current_out s))
               then (s\<lparr>text_lines := text_lines s @ [current_out s]\<rparr>,
                     transcript @ [\<lparr>line_start = timestamp_offset s,
                                    line_end = timestamp_offset s + duration,
                                    line_text = current_out s\<rparr>])
               else (s, transcript))
        in (s1\<lparr>current_out := [], same_output_threshold := 0\<rparr>, transcript1, Some duration))
     else (s\<lparr>prev_out := current_out s\<rparr>, transcript, offset))"

text \<open>The whole method. \<open>segments[-1]\<close> raises \<open>IndexError\<close> on an empty list, after
  \<open>self.current_out\<close> was cleared; the caller only passes a non-empty list.\<close>

definition update_segments ::
  "(nat \<Rightarrow> string \<Rightarrow> string list) \<Rightarrow> segment list \<Rightarrow> real \<Rightarrow> session
     \<Rightarrow> (py_error + string \<times> transcript_line list) \<times> session" where
  "update_segments wrap segments duration s =
     (let s0 = s\<lparr>current_out := []\<rparr>;
          (txt, transcript, offset) =
            (if length segments > 1
             then complete_segments (timestamp_offset s0) duration (butlast segments)
                    (text_lines s0, [], None)
             else (text_lines s0, [], None));
          s1 = s0\<lparr>text_lines := txt\<rparr>
      in if segments = [] then (Inl IndexError, s1)
         else
           (let s2 = s1\<lparr>current_out := current_out s1 @ seg_text (last segments)\<rparr>;
                s3 = count_repeat s2;
                (s4, transcript4, offset4) = promote_or_remember duration (s3, transcript, offset);
                s5 = (case offset4 of
                        None \<Rightarrow> s4
                      | Some off \<Rightarrow> s4\<lparr>timestamp_offset := timestamp_offset s4 + off\<rparr>)
            in (Inr (fill_output wrap s5 (current_out s5), transcript4), s5)))"

subsection \<open>One iteration of \<open>speech_to_text\<close>\<close>

datatype engine_result = Engine_Raises | Engine_Returns "segment list"

datatype iter_outcome =
    Loop_Exit
  | No_Frames
  | Too_Short
  | Raised
  | Sent string "transcript_line list"

text \<open>The readings of \<open>time.time()\<close> at lines 173, 174 and 179.\<close>

record clock =
  now_start :: real
  now_show :: real
  now_pause :: real

text \<open>Lines 142 to 144, with \<open>fs\<close> the buffer \<open>self.frames_np\<close>.\<close>

definition clip_audio :: "sample list \<Rightarrow> session \<Rightarrow> session" where
  "clip_audio fs s =
     (if length (py_slice_from
                   (py_int ((timestamp_offset s - frames_offset s) * of_nat RATE)) fs)
           > 25 * RATE
      then s\<lparr>timestamp_offset := frames_offset s + of_nat (length fs) / of_nat RATE - 5\<rparr>
      else s)"

text \<open>Lines 146 and 147.\<close>

definition input_bytes :: "sample list \<Rightarrow> session \<Rightarrow> sample list" where
  "input_bytes fs s =
     (let samples_take = max 0 ((timestamp_offset s - frames_offset s) * of_nat RATE)
      in py_slice_from (py_int samples_take) fs)"

text \<open>Lines 154 to 157.\<close>

definition initial_prompt :: "session \<Rightarrow> string option" where
  "initial_prompt s =
     (if text_lines s \<noteq> [] \<and> last (text_lines s) \<noteq> [] then Some (last (text_lines s))
      else None)"

text \<open>Lines 171 to 188, the branch of an empty result: the text sent and the new state.\<close>

definition no_speech ::
  "(nat \<Rightarrow> string \<Rightarrow> string list) \<Rightarrow> clock \<Rightarrow> session \<Rightarrow> string \<times> session" where
  "no_speech wrap clk s =
     (let t0 = (case t_start s of None \<Rightarrow> now_start clk | Some t \<Rightarrow> t);
          s1 = s\<lparr>t_start := Some t0\<rparr>;
          output = (if now_show clk - t0 < show_prev_out_thresh then fill_output wrap s1 []
                    else []);
          s2 = (if text_lines s1 \<noteq> [] \<and> last (text_lines s1) \<noteq> []
                then (if now_pause clk - t0 > add_pause_thresh
                      then s1\<lparr>text_lines := text_lines s1 @ [[]]\<rparr> else s1)
                else s1)
      in (output, s2))"

text \<open>The body of the \<open>while True\<close> loop, lines 129 to 191. The outcome says how the
  iteration ended; \<open>Sent\<close> carries the argument of \<open>websocket.send\<close> and the transcript
  of the cycle.\<close>

definition speech_to_text_iter ::
  "(nat \<Rightarrow> string \<Rightarrow> string list) \<Rightarrow> clock
     \<Rightarrow> (sample list \<Rightarrow> string option \<Rightarrow> engine_result) \<Rightarrow> session
     \<Rightarrow> iter_outcome \<times> session" where
  "speech_to_text_iter wrap clk transcribe s =
     (if exit_flag s then (Loop_Exit, s)
      else case frames_np s of
        None \<Rightarrow> (No_Frames, s)
      | Some fs \<Rightarrow>
          (let s1 = clip_audio fs s;
               input = input_bytes fs s1;
               duration = of_nat (length input) / of_nat RATE
           in if duration < 1 then (Too_Short, s1)
              else
                (case transcribe input (initial_prompt s1) of
                   Engine_Raises \<Rightarrow> (Raised, s1)
                 | Engine_Returns result \<Rightarrow>
                     if result \<noteq> []
                     then
                       (case update_segments wrap result duration (s1\<lparr>t_start := None\<rparr>) of
                          (Inl e, s2) \<Rightarrow> (Raised, s2)
                        | (Inr (output, segments), s2) \<Rightarrow> (Sent output segments, s2))
                     else
                       (let (output, s2) = no_speech wrap clk s1
                        in (Sent output [], s2)))))"

subsection \<open>Auxiliary definitions for the statements\<close>

text \<open>The transcript entry that the loop of \<open>update_segments\<close> builds for a complete
  segment.\<close>

definition segment_line :: "real \<Rightarrow> real \<Rightarrow> segment \<Rightarrow> transcript_line" where
  "segment_line ts duration g =
     \<lparr>line_start = ts + seg_start g, line_end = ts + min duration (seg_end g),
      line_text = seg_text g\<rparr>"

text \<open>A wrapper for the examples: a text that fits one line is returned as that line, the
  empty text as no line.\<close>

definition unwrapped :: "nat \<Rightarrow> string \<Rightarrow> string list" where
  "unwrapped w t = (if t = [] then [] else [t])"

text \<open>The number of buffered samples (\<open>frames_np.shape[0]\<close>, 0 before the first frame).\<close>

definition buffered :: "session \<Rightarrow> nat" where
  "buffered s = (case frames_np s of None \<Rightarrow> 0 | Some fs \<Rightarrow> length fs)"

text \<open>For the examples: a frame of 12.5 seconds of silence (200000 samples, 800000 bytes
  on the wire), and the sessions that have received three, four and five of them and run
  no cycle.\<close>

definition frame :: "sample list" where
  "frame = replicate 200000 0"

definition three_frames :: session where
  "three_frames = add_frames frame (add_frames frame (add_frames frame ServeClient_init))"

definition four_frames :: session where
  "four_frames = add_frames frame three_frames"

definition five_frames :: session where
  "five_frames = add_frames frame four_frames"

text \<open>The formatter as the specification words it: the last \<open>k\<close> entries of a list; the
  text gathered walking back from the most recent entry up to an empty sentinel; and
  the rendering of the committed lines with the provisional text.\<close>

definition spec_last_entries :: "nat \<Rightarrow> 'a list \<Rightarrow> 'a list" where
  "spec_last_entries k xs = drop (length xs - k) xs"

definition spec_after_sentinel :: "string list \<Rightarrow> string" where
  "spec_after_sentinel xs = concat (rev (takeWhile (\<lambda>l. l \<noteq> []) (rev xs)))"

text \<open>Two wrapped lines joined by a single space, written out: no line gives the empty
  text, one line gives that line, two lines give the first, one space and the second.
  It is only applied to the last two lines.\<close>

fun spec_join_two :: "string list \<Rightarrow> string" where
  "spec_join_two [] = []"
| "spec_join_two [a] = a"
| "spec_join_two (a # b # rest) = a @ [CHR '' ''] @ b"

definition spec_render :: "(nat \<Rightarrow> string \<Rightarrow> string list) \<Rightarrow> string list \<Rightarrow> string \<Rightarrow> string" where
  "spec_render wrap committed provisional =
     spec_join_two
       (spec_last_entries 2
          (wrap 50 (spec_after_sentinel (spec_last_entries 2 committed) @ provisional)))"

text \<open>A second wrapper for the examples, which breaks lines: the text is cut into words at
  spaces and the words are put on lines greedily, a word going to the next line when it
  would not fit the width with one space before it. No word is broken.\<close>

fun split_words :: "string \<Rightarrow> string \<Rightarrow> string list" where
  "split_words [] word = (if word = [] then [] else [word])"
| "split_words (c # cs) word =
     (if c = CHR '' '' then (if word = [] then [] else [word]) @ split_words cs []
      else split_words cs (word @ [c]))"

fun fill_lines :: "nat \<Rightarrow> string list \<Rightarrow> string \<Rightarrow> string list" where
  "fill_lines w [] line = (if line = [] then [] else [line])"
| "fill_lines w (x # xs) line =
     (if line = [] then fill_lines w xs x
      else if length line + 1 + length x \<le> w then fill_lines w xs (line @ '' '' @ x)
      else line # fill_lines w xs x)"

definition greedy_wrap :: "nat \<Rightarrow> string \<Rightarrow> string list" where
  "greedy_wrap w t = fill_lines w (split_words t []) []"

text \<open>The samples that an iteration of the loop slices off the buffer (lines 142 to 147).\<close>

definition submitted_window :: "session \<Rightarrow> sample list" where
  "submitted_window s =
     (case frames_np s of None \<Rightarrow> [] | Some fs \<Rightarrow> input_bytes fs (clip_audio fs s))"

text \<open>An engine result whose segments all end at or after the start of the window.\<close>

definition nonneg_ends :: "engine_result \<Rightarrow> bool" where
  "nonneg_ends r =
     (case r of Engine_Raises \<Rightarrow> True
      | Engine_Returns segs \<Rightarrow> list_all (\<lambda>g. 0 \<le> seg_end g) segs)"

text \<open>Successive calls of \<open>update_segments\<close>, each with a result and a window duration;
  the transcripts returned are concatenated.\<close>

fun feed ::
  "(nat \<Rightarrow> string \<Rightarrow> string list) \<Rightarrow> (segment list \<times> real) list \<Rightarrow> session
     \<Rightarrow> transcript_line list \<times> session" where
  "feed wrap [] s = ([], s)"
| "feed wrap ((segments, duration) # rest) s =
     (let (r, s1) = update_segments wrap segments duration s;
          (ls, s2) = feed wrap rest s1
      in ((case r of Inl e \<Rightarrow> [] | Inr (output, transcript) \<Rightarrow> transcript) @ ls, s2))"

text \<open>Engines for the examples: one that raises, one that hears nothing, one that
  returns the single segment \<open>hi\<close>, and one that raises exactly when it is handed more
  than 25 seconds of audio.\<close>

definition failing_engine :: "sample list \<Rightarrow> string option \<Rightarrow> engine_result" where
  "failing_engine w p = Engine_Raises"

definition silent_engine :: "sample list \<Rightarrow> string option \<Rightarrow> engine_result" where
  "silent_engine w p = Engine_Returns []"

definition hi_engine :: "sample list \<Rightarrow> string option \<Rightarrow> engine_result" where
  "hi_engine w p = Engine_Returns [\<lparr>seg_text = ''hi'', seg_start = 0, seg_end = 1\<rparr>]"

definition long_window_probe :: "sample list \<Rightarrow> string option \<Rightarrow> engine_result" where
  "long_window_probe w p = (if 25 * RATE < length w then Engine_Raises else Engine_Returns [])"

definition clock_at :: "real \<Rightarrow> clock" where
  "clock_at t = \<lparr>now_start = t, now_show = t, now_pause = t\<rparr>"




text \<open>For the examples: the session that received three frames, ran one cycle in which
  the engine raised, and then received two more frames; and the session that received
  one frame and ran two cycles in which the engine returned \<open>hi\<close>.\<close>

definition overflow_state :: session where
  "overflow_state =
     add_frames frame (add_frames frame
       (snd (speech_to_text_iter unwrapped (clock_at 0) failing_engine three_frames)))"

definition hi_twice :: session where
  "hi_twice =
     snd (speech_to_text_iter unwrapped (clock_at 0) hi_engine
       (snd (speech_to_text_iter unwrapped (clock_at 0) hi_engine
          (add_frames frame ServeClient_init))))"

text \<open>For the examples: the engine that returns \<open>hello\<close> and an unfinished \<open> world\<close>, and
  the session that received one frame and ran one cycle with it.\<close>

definition hello_world_engine :: "sample list \<Rightarrow> string option \<Rightarrow> engine_result" where
  "hello_world_engine w p =
     Engine_Returns [\<lparr>seg_text = ''hello'', seg_start = 0, seg_end = 1\<rparr>,
                     \<lparr>seg_text = '' world'', seg_start = 1, seg_end = 2\<rparr>]"


text \<open>Cycles whose result is a single segment, each with its window duration.\<close>

definition single_cycles :: "(segment \<times> real) list \<Rightarrow> (segment list \<times> real) list" where
  "single_cycles cs = map (\<lambda>(g, d). ([g], d)) cs"

text \<open>For the examples: a single segment \<open>hello\<close> over a window of 2 seconds.\<close>

definition hello_cycle :: "segment \<times> real" where
  "hello_cycle = (\<lparr>seg_text = ''hello'', seg_start = 0, seg_end = 2\<rparr>, 2)"

section \<open>Properties\<close>

subsection \<open>The stabiliser\<close>

lemma complete_segments_eq:
  "complete_segments ts d gs (lines, tr, offs) =
     (lines @ map seg_text gs, tr @ map (segment_line ts d) gs,
      if gs = [] then offs else Some (min d (seg_end (last gs))))"
  by (induction gs arbitrary: lines tr offs) (simp_all add: segment_line_def)

lemma strip_Nil: "strip [] = []"
  by (simp add: strip_def)

lemma strip_world: "strip '' world'' = ''world''"
  by (simp add: strip_def py_isspace_def)

text \<open>
  Claim C5. When \<open>update_segments\<close> receives the segments \<open>hello\<close> (0 to 1) and
  \<open> world\<close> (1 to 2) for a window of 2 seconds, with \<open>timestamp_offset\<close> 0 and no stall
  promotion due on this cycle, exactly the line \<open>{0, 1, hello}\<close> is appended to
  \<open>self.text\<close> and returned in the transcript, \<open>timestamp_offset\<close> becomes 1 (the end of
  the last complete segment, not of the tail), and the provisional text is \<open> world\<close>.
\<close>

theorem C5_two_segments:
  assumes ts: "timestamp_offset s = 0"
    and pending: "same_output_threshold s < 5 \<or> strip (prev_out s) \<noteq> ''world''"
  shows "fst (update_segments wrap
                [\<lparr>seg_text = ''hello'', seg_start = 0, seg_end = 1\<rparr>,
                 \<lparr>seg_text = '' world'', seg_start = 1, seg_end = 2\<rparr>] 2 s)
           = Inr (fill_output wrap
                    (snd (update_segments wrap
                       [\<lparr>seg_text = ''hello'', seg_start = 0, seg_end = 1\<rparr>,
                        \<lparr>seg_text = '' world'', seg_start = 1, seg_end = 2\<rparr>] 2 s)) '' world'',
                  [\<lparr>line_start = 0, line_end = 1, line_text = ''hello''\<rparr>])
       \<and> text_lines (snd (update_segments wrap
                [\<lparr>seg_text = ''hello'', seg_start = 0, seg_end = 1\<rparr>,
                 \<lparr>seg_text = '' world'', seg_start = 1, seg_end = 2\<rparr>] 2 s))
           = text_lines s @ [''hello'']
       \<and> timestamp_offset (snd (update_segments wrap
                [\<lparr>seg_text = ''hello'', seg_start = 0, seg_end = 1\<rparr>,
                 \<lparr>seg_text = '' world'', seg_start = 1, seg_end = 2\<rparr>] 2 s)) = 1
       \<and> current_out (snd (update_segments wrap
                [\<lparr>seg_text = ''hello'', seg_start = 0, seg_end = 1\<rparr>,
                 \<lparr>seg_text = '' world'', seg_start = 1, seg_end = 2\<rparr>] 2 s)) = '' world''"
  using assms
  by (auto simp add: update_segments_def count_repeat_def promote_or_remember_def Let_def
      strip_world)

theorem C5_two_segments_witness:
  "timestamp_offset ServeClient_init = 0
   \<and> (same_output_threshold ServeClient_init < 5 \<or> strip (prev_out ServeClient_init) \<noteq> ''world'')
   \<and> update_segments unwrapped
         [\<lparr>seg_text = ''hello'', seg_start = 0, seg_end = 1\<rparr>,
          \<lparr>seg_text = '' world'', seg_start = 1, seg_end = 2\<rparr>] 2 ServeClient_init
       = (Inr (''hello world'', [\<lparr>line_start = 0, line_end = 1, line_text = ''hello''\<rparr>]),
          ServeClient_init\<lparr>timestamp_offset := 1, text_lines := [''hello''],
            current_out := '' world'', prev_out := '' world''\<rparr>)"
proof -
  have h1: "timestamp_offset ServeClient_init = 0"
    by (simp add: ServeClient_init_def)
  have h2: "same_output_threshold ServeClient_init < 5
              \<or> strip (prev_out ServeClient_init) \<noteq> ''world''"
    by (simp add: ServeClient_init_def)
  note c = C5_two_segments [OF h1 h2, of unwrapped]
  have a1: "snd (update_segments unwrapped
         [\<lparr>seg_text = ''hello'', seg_start = 0, seg_end = 1\<rparr>,
          \<lparr>seg_text = '' world'', seg_start = 1, seg_end = 2\<rparr>] 2 ServeClient_init)
       = ServeClient_init\<lparr>timestamp_offset := 1, text_lines := [''hello''],
            current_out := '' world'', prev_out := '' world''\<rparr>"
    by (simp add: update_segments_def count_repeat_def promote_or_remember_def Let_def
        strip_world strip_Nil ServeClient_init_def)
  have a2: "fill_output unwrapped (ServeClient_init\<lparr>timestamp_offset := 1,
            text_lines := [''hello''], current_out := '' world'', prev_out := '' world''\<rparr>)
            '' world'' = ''hello world''"
    by (simp add: fill_output_def unwrapped_def ServeClient_init_def
        pick_previous_segments_def py_slice_from_def wrapper_width_def)
  from c have "fst (update_segments unwrapped
         [\<lparr>seg_text = ''hello'', seg_start = 0, seg_end = 1\<rparr>,
          \<lparr>seg_text = '' world'', seg_start = 1, seg_end = 2\<rparr>] 2 ServeClient_init)
      = Inr (''hello world'', [\<lparr>line_start = 0, line_end = 1, line_text = ''hello''\<rparr>])"
    by (simp only: a1 a2)
  with a1 h1 h2 show ?thesis
    by (simp only: prod_eq_iff fst_conv snd_conv simp_thms)
qed

text \<open>
  Claim C10. When the repeat count passes 5 on a cycle but the last committed line
  already equals the candidate (both trimmed and lower-cased), the promotion appends
  nothing to \<open>self.text\<close> and adds no entry to the transcript (both hold the complete
  segments of the cycle only, none for a single-segment result), while
  \<open>timestamp_offset\<close> still advances by the whole window duration, the provisional text
  is cleared and the repeat count returns to 0.
\<close>

theorem C10_promotion_of_duplicate:
  assumes nonempty: "segments \<noteq> []"
    and same: "strip (seg_text (last segments)) = strip (prev_out s)"
    and cand: "seg_text (last segments) \<noteq> []"
    and count: "5 \<le> same_output_threshold s"
    and committed: "text_lines s @ map seg_text (butlast segments) \<noteq> []"
    and dup: "lower (strip (last (text_lines s @ map seg_text (butlast segments))))
                = lower (strip (seg_text (last segments)))"
  shows "text_lines (snd (update_segments wrap segments duration s))
           = text_lines s @ map seg_text (butlast segments)
       \<and> fst (update_segments wrap segments duration s)
           = Inr (fill_output wrap (snd (update_segments wrap segments duration s)) [],
                  map (segment_line (timestamp_offset s) duration) (butlast segments))
       \<and> timestamp_offset (snd (update_segments wrap segments duration s))
           = timestamp_offset s + duration
       \<and> current_out (snd (update_segments wrap segments duration s)) = []
       \<and> same_output_threshold (snd (update_segments wrap segments duration s)) = 0"
proof (cases "length segments > 1")
  case True
  with assms show ?thesis
    by (simp add: update_segments_def count_repeat_def promote_or_remember_def Let_def
        complete_segments_eq)
next
  case False
  with nonempty have one: "butlast segments = []"
    by (cases segments) (auto split: if_splits)
  with False assms show ?thesis
    by (simp add: update_segments_def count_repeat_def promote_or_remember_def Let_def)
qed

theorem C10_promotion_of_duplicate_witness:
  "text_lines (snd (update_segments unwrapped
       [\<lparr>seg_text = ''Hi '', seg_start = 0, seg_end = 2\<rparr>] 2
       (ServeClient_init\<lparr>text_lines := [''hi''], prev_out := ''Hi'',
          same_output_threshold := 5\<rparr>))) = [''hi'']
   \<and> fst (update_segments unwrapped
       [\<lparr>seg_text = ''Hi '', seg_start = 0, seg_end = 2\<rparr>] 2
       (ServeClient_init\<lparr>text_lines := [''hi''], prev_out := ''Hi'',
          same_output_threshold := 5\<rparr>)) = Inr (''hi'', [])
   \<and> timestamp_offset (snd (update_segments unwrapped
       [\<lparr>seg_text = ''Hi '', seg_start = 0, seg_end = 2\<rparr>] 2
       (ServeClient_init\<lparr>text_lines := [''hi''], prev_out := ''Hi'',
          same_output_threshold := 5\<rparr>))) = 2
   \<and> current_out (snd (update_segments unwrapped
       [\<lparr>seg_text = ''Hi '', seg_start = 0, seg_end = 2\<rparr>] 2
       (ServeClient_init\<lparr>text_lines := [''hi''], prev_out := ''Hi'',
          same_output_threshold := 5\<rparr>))) = []
   \<and> same_output_threshold (snd (update_segments unwrapped
       [\<lparr>seg_text = ''Hi '', seg_start = 0, seg_end = 2\<rparr>] 2
       (ServeClient_init\<lparr>text_lines := [''hi''], prev_out := ''Hi'',
          same_output_threshold := 5\<rparr>))) = 0"
proof -
  have st: "strip ''Hi '' = ''Hi''" "strip ''Hi'' = ''Hi''" "strip ''hi'' = ''hi''"
    by (simp_all add: strip_def py_isspace_def)
  have lw: "lower ''Hi'' = ''hi''" "lower ''hi'' = ''hi''"
    by code_simp+
  show ?thesis
    using C10_promotion_of_duplicate [of "[\<lparr>seg_text = ''Hi '', seg_start = 0, seg_end = 2\<rparr>]"
        "ServeClient_init\<lparr>text_lines := [''hi''], prev_out := ''Hi'',
           same_output_threshold := 5\<rparr>" unwrapped 2]
    by (simp add: st lw ServeClient_init_def fill_output_def unwrapped_def
        pick_previous_segments_def py_slice_from_def wrapper_width_def)
qed

subsection \<open>The audio buffer\<close>

lemma evict_frames_Some:
  "frames_np s = Some buf \<Longrightarrow>
   evict_frames s =
     (if 45 * RATE < length buf
      then s\<lparr>frames_offset := frames_offset s + 45, frames_np := Some (drop (30 * RATE) buf)\<rparr>
      else s)"
  by (simp add: evict_frames_def py_slice_from_def py_int_def RATE_def)

lemma evict_frames_None: "frames_np s = None \<Longrightarrow> evict_frames s = s"
  by (simp add: evict_frames_def)

lemma buffered_add_frames:
  "buffered (add_frames f s) =
     (if 45 * RATE < buffered s then buffered s - 30 * RATE else buffered s) + length f"
proof (cases "frames_np s")
  case None
  then show ?thesis
    by (simp add: add_frames_def evict_frames_None buffered_def)
next
  case (Some buf)
  then show ?thesis
    by (simp add: add_frames_def evict_frames_Some buffered_def)
qed

lemma buffered_ingest_bound:
  assumes "buffered s \<le> 75 * RATE" and "\<forall>f \<in> set fs. length f \<le> 30 * RATE"
  shows "buffered (fold add_frames fs s) \<le> 75 * RATE"
  using assms
proof (induction fs arbitrary: s)
  case Nil
  then show ?case by simp
next
  case (Cons f fs)
  have "buffered (add_frames f s) \<le> 75 * RATE"
    using Cons.prems by (auto simp add: buffered_add_frames RATE_def)
  with Cons show ?case by simp
qed

lemma three_frames_eq:
  "three_frames = ServeClient_init\<lparr>frames_np := Some (replicate 600000 0)\<rparr>"
  by (simp add: three_frames_def add_frames_def evict_frames_def ServeClient_init_def frame_def
      RATE_def replicate_add [symmetric])

lemma four_frames_eq:
  "four_frames = ServeClient_init\<lparr>frames_np := Some (replicate 800000 0)\<rparr>"
  by (simp add: four_frames_def three_frames_eq add_frames_def evict_frames_def
      ServeClient_init_def frame_def RATE_def replicate_add [symmetric])

lemma five_frames_eq:
  "five_frames = ServeClient_init\<lparr>frames_np := Some (replicate 520000 0), frames_offset := 45\<rparr>"
  by (simp add: five_frames_def four_frames_eq add_frames_def evict_frames_def
      ServeClient_init_def frame_def RATE_def py_slice_from_def py_int_def
      replicate_add [symmetric])

text \<open>
  Claim C2 says that an append finding more than 45 seconds buffered leaves exactly the
  most recent 30 seconds and advances \<open>frames_offset\<close> by the evicted duration. After four
  frames of 12.5 seconds the buffer holds 50 seconds; the eviction of the next append
  leaves 20 seconds, not 30, and adds 45 to \<open>frames_offset\<close> while 30 seconds were
  evicted.
\<close>

theorem C2_counterexample:
  "45 * RATE < buffered four_frames
   \<and> buffered (evict_frames four_frames) = 20 * RATE
   \<and> buffered (evict_frames four_frames) \<noteq> 30 * RATE
   \<and> frames_offset (evict_frames four_frames) - frames_offset four_frames = 45
   \<and> real (buffered four_frames - buffered (evict_frames four_frames)) / real RATE = 30"
  by (simp add: four_frames_eq evict_frames_def buffered_def ServeClient_init_def RATE_def
      py_slice_from_def py_int_def)

text \<open>
  Claim C2, amended. An append that finds more than 45 seconds buffered discards exactly
  the oldest 30 seconds (\<open>30 * RATE\<close> samples): what is retained is the rest of the old
  buffer, more than 15 seconds of the most recent audio, and the new samples are
  appended to it.
\<close>

theorem C2_eviction_drops_oldest:
  assumes "frames_np s = Some buf" and "45 * RATE < length buf"
  shows "frames_np (evict_frames s) = Some (drop (30 * RATE) buf)
       \<and> length (drop (30 * RATE) buf) = length buf - 30 * RATE
       \<and> 15 * RATE < length (drop (30 * RATE) buf)
       \<and> frames_np (add_frames f s) = Some (drop (30 * RATE) buf @ f)"
  using assms by (simp add: add_frames_def evict_frames_Some RATE_def)

theorem C2_eviction_drops_oldest_witness:
  "frames_np four_frames = Some (replicate 800000 0)
   \<and> 45 * RATE < length (replicate 800000 (0::real))
   \<and> frames_np (evict_frames four_frames) = Some (replicate 320000 0)
   \<and> frames_np (add_frames frame four_frames) = Some (replicate 520000 0)"
proof -
  have h1: "frames_np four_frames = Some (replicate 800000 0)"
    by (simp add: four_frames_eq)
  have h2: "45 * RATE < length (replicate 800000 (0::real))"
    by (simp add: RATE_def)
  from C2_eviction_drops_oldest [OF h1 h2, of frame] h1 h2 show ?thesis
    by (simp add: RATE_def frame_def replicate_add [symmetric])
qed

text \<open>
  Claim C8 says that the buffered duration never exceeds 45 seconds right after an
  append. The test precedes the concatenation: with 37.5 seconds buffered, appending a
  frame of 12.5 seconds evicts nothing and leaves 50 seconds.
\<close>

theorem C8_counterexample:
  "buffered three_frames = 600000
   \<and> buffered (add_frames frame three_frames) = 800000
   \<and> 45 * RATE < buffered (add_frames frame three_frames)"
proof -
  have "buffered three_frames = 600000"
    by (simp add: three_frames_eq buffered_def)
  then show ?thesis
    by (simp add: buffered_add_frames frame_def RATE_def)
qed

text \<open>
  Claim C8, amended. When every frame received so far is at most 30 seconds long, the
  buffered duration right after an append is at most 45 seconds plus the duration of the
  frame just appended.
\<close>

theorem C8_append_bound:
  assumes "\<forall>g \<in> set fs. length g \<le> 30 * RATE"
  shows "buffered (add_frames f (fold add_frames fs ServeClient_init)) \<le> 45 * RATE + length f"
proof -
  have "buffered ServeClient_init \<le> 75 * RATE"
    by (simp add: buffered_def ServeClient_init_def)
  then have "buffered (fold add_frames fs ServeClient_init) \<le> 75 * RATE"
    using assms by (rule buffered_ingest_bound)
  then show ?thesis
    by (auto simp add: buffered_add_frames RATE_def)
qed

theorem C8_append_bound_witness:
  "length frame \<le> 30 * RATE
   \<and> buffered (add_frames frame (fold add_frames [frame, frame, frame] ServeClient_init))
       \<le> 45 * RATE + length frame
   \<and> buffered (add_frames frame (fold add_frames [frame, frame, frame] ServeClient_init)) = 800000"
proof -
  have h: "\<forall>g \<in> set [frame, frame, frame]. length g \<le> 30 * RATE"
    by (simp add: frame_def RATE_def)
  have e: "fold add_frames [frame, frame, frame] ServeClient_init = three_frames"
    by (simp add: three_frames_def)
  have b: "buffered three_frames = 600000"
    by (simp add: three_frames_eq buffered_def)
  show ?thesis
    unfolding e using C8_append_bound [OF h, of frame, unfolded e]
    by (simp add: b buffered_add_frames frame_def RATE_def)
qed

subsection \<open>The formatter\<close>

lemma gather_text_snoc:
  "gather_text (xs @ [x]) acc = (if x = [] then [] else gather_text xs acc @ x)"
  by (induction xs arbitrary: acc) simp_all

lemma gather_text_after_sentinel: "gather_text xs [] = spec_after_sentinel xs"
proof (induction xs rule: rev_induct)
  case Nil
  then show ?case by (simp add: spec_after_sentinel_def)
next
  case (snoc x xs)
  then show ?case
    by (simp add: gather_text_snoc spec_after_sentinel_def)
qed

lemma py_slice_last_entries:
  "0 < k \<Longrightarrow> py_slice_from (- int (min (length xs) k)) xs = spec_last_entries k xs"
  by (auto simp add: py_slice_from_def spec_last_entries_def min_def)

lemma py_slice_last_two: "py_slice_from (- 2) xs = spec_last_entries 2 xs"
  by (simp add: py_slice_from_def spec_last_entries_def)

lemma py_join_two:
  "length ws \<le> 2 \<Longrightarrow> py_join '' '' ws = spec_join_two ws"
  by (cases ws rule: spec_join_two.cases) simp_all

lemma length_spec_last_entries: "length (spec_last_entries k xs) \<le> k"
  by (simp add: spec_last_entries_def)

lemma spec_last_two_snoc: "spec_last_entries 2 (pre @ [a, b]) = [a, b]"
  by (simp add: spec_last_entries_def)

text \<open>
  Claim C9. \<open>fill_output\<close> returns a value computed from \<open>self.text\<close> and its
  argument alone: it takes the last 2 entries of \<open>self.text\<close>, drops everything up to an
  empty sentinel among them, appends the provisional text, wraps at width 50 and joins
  the last two wrapped lines with one space. So when the wrapper returns two lines or
  more, the result is the last but one, a single space and the last; when it returns
  one line, that line; when it returns none, the empty text. For the committed lines
  \<open>["a very long sentence exceeding fifty characters in total length", ""]\<close> the first
  entry is discarded: the rendering is that of no committed line.
\<close>

theorem C9_fill_output:
  "fill_output wrap s output = spec_render wrap (text_lines s) output
   \<and> (wrap 50 (spec_after_sentinel (spec_last_entries 2 (text_lines s)) @ output)
         = pre @ [a, b]
        \<longrightarrow> fill_output wrap s output = a @ '' '' @ b)
   \<and> (wrap 50 (spec_after_sentinel (spec_last_entries 2 (text_lines s)) @ output) = [a]
        \<longrightarrow> fill_output wrap s output = a)
   \<and> (wrap 50 (spec_after_sentinel (spec_last_entries 2 (text_lines s)) @ output) = []
        \<longrightarrow> fill_output wrap s output = [])
   \<and> fill_output wrap
       (s\<lparr>text_lines := [''a very long sentence exceeding fifty characters in total length'',
                          '''']\<rparr>) output
     = fill_output wrap (s\<lparr>text_lines := []\<rparr>) output
   \<and> fill_output wrap
       (s\<lparr>text_lines := [''a very long sentence exceeding fifty characters in total length'',
                          '''']\<rparr>) output
     = spec_join_two (spec_last_entries 2 (wrap 50 output))"
proof -
  have r: "fill_output wrap t output = spec_render wrap (text_lines t) output" for t
    by (simp add: fill_output_def spec_render_def Let_def pick_previous_segments_def
        wrapper_width_def py_slice_last_entries py_slice_last_two gather_text_after_sentinel
        py_join_two length_spec_last_entries)
  have two: "wrap 50 (spec_after_sentinel (spec_last_entries 2 (text_lines s)) @ output)
         = pre @ [a, b]
        \<longrightarrow> fill_output wrap s output = a @ '' '' @ b"
    by (simp add: r spec_render_def spec_last_two_snoc)
  have one: "wrap 50 (spec_after_sentinel (spec_last_entries 2 (text_lines s)) @ output) = [a]
        \<longrightarrow> fill_output wrap s output = a"
    by (simp add: r spec_render_def spec_last_entries_def)
  have none: "wrap 50 (spec_after_sentinel (spec_last_entries 2 (text_lines s)) @ output) = []
        \<longrightarrow> fill_output wrap s output = []"
    by (simp add: r spec_render_def spec_last_entries_def)
  have ex: "fill_output wrap
       (s\<lparr>text_lines := [''a very long sentence exceeding fifty characters in total length'',
                          '''']\<rparr>) output
     = fill_output wrap (s\<lparr>text_lines := []\<rparr>) output"
    "fill_output wrap
       (s\<lparr>text_lines := [''a very long sentence exceeding fifty characters in total length'',
                          '''']\<rparr>) output
     = spec_join_two (spec_last_entries 2 (wrap 50 output))"
    by (simp_all add: r spec_render_def spec_last_entries_def spec_after_sentinel_def)
  from r [of s] two one none ex show ?thesis
    by blast
qed

theorem C9_fill_output_witness:
  "greedy_wrap 50
      ''a very long sentence exceeding fifty characters in total length and then some more words to fill a third line''
     = [''a very long sentence exceeding fifty characters in'',
        ''total length and then some more words to fill a'', ''third line'']
   \<and> fill_output greedy_wrap
       (ServeClient_init\<lparr>text_lines :=
          [''a very long sentence exceeding fifty characters in total length'',
           '' and then some more words to fill a third line'']\<rparr>) []
     = ''total length and then some more words to fill a third line''
   \<and> greedy_wrap 50 ''hello world'' = [''hello world'']
   \<and> fill_output greedy_wrap (ServeClient_init\<lparr>text_lines := [''hello'']\<rparr>) '' world''
     = ''hello world''
   \<and> greedy_wrap 50 [] = []
   \<and> fill_output greedy_wrap ServeClient_init [] = []"
proof -
  have w3: "greedy_wrap 50
      ''a very long sentence exceeding fifty characters in total length and then some more words to fill a third line''
     = [''a very long sentence exceeding fifty characters in'',
        ''total length and then some more words to fill a'', ''third line'']"
    by code_simp
  have w1: "greedy_wrap 50 ''hello world'' = [''hello world'']"
    by code_simp
  have w0: "greedy_wrap 50 [] = []"
    by (simp add: greedy_wrap_def)
  have e3: "spec_after_sentinel (spec_last_entries 2
        [''a very long sentence exceeding fifty characters in total length'',
         '' and then some more words to fill a third line''])
     = ''a very long sentence exceeding fifty characters in total length and then some more words to fill a third line''"
    by (simp add: spec_after_sentinel_def spec_last_entries_def)
  have e1: "spec_after_sentinel (spec_last_entries 2 [''hello'']) = ''hello''"
    by (simp add: spec_after_sentinel_def spec_last_entries_def)
  have e0: "spec_after_sentinel (spec_last_entries 2 []) = []"
    by (simp add: spec_after_sentinel_def spec_last_entries_def)
  have p3: "greedy_wrap 50
       (spec_after_sentinel (spec_last_entries 2 (text_lines
          (ServeClient_init\<lparr>text_lines :=
             [''a very long sentence exceeding fifty characters in total length'',
              '' and then some more words to fill a third line'']\<rparr>))) @ [])
     = [''a very long sentence exceeding fifty characters in'']
         @ [''total length and then some more words to fill a'', ''third line'']"
    by (simp add: e3 w3)
  have p1: "greedy_wrap 50
       (spec_after_sentinel (spec_last_entries 2 (text_lines
          (ServeClient_init\<lparr>text_lines := [''hello'']\<rparr>))) @ '' world'')
     = [''hello world'']"
    by (simp add: e1 w1)
  have p0: "greedy_wrap 50
       (spec_after_sentinel (spec_last_entries 2 (text_lines ServeClient_init)) @ []) = []"
    by (simp add: ServeClient_init_def e0 w0)
  have a: "fill_output greedy_wrap
       (ServeClient_init\<lparr>text_lines :=
          [''a very long sentence exceeding fifty characters in total length'',
           '' and then some more words to fill a third line'']\<rparr>) []
     = ''total length and then some more words to fill a'' @ '' '' @ ''third line''"
    using C9_fill_output [of greedy_wrap
        "ServeClient_init\<lparr>text_lines :=
          [''a very long sentence exceeding fifty characters in total length'',
           '' and then some more words to fill a third line'']\<rparr>"
        "[]"
        "[''a very long sentence exceeding fifty characters in'']"
        "''total length and then some more words to fill a''"
        "''third line''"] p3
    by blast
  have b: "fill_output greedy_wrap (ServeClient_init\<lparr>text_lines := [''hello'']\<rparr>) '' world''
     = ''hello world''"
    using C9_fill_output [of greedy_wrap
        "ServeClient_init\<lparr>text_lines := [''hello'']\<rparr>" "'' world''" _ "''hello world''"] p1
    by blast
  have c: "fill_output greedy_wrap ServeClient_init [] = []"
    using C9_fill_output [of greedy_wrap ServeClient_init "[]"] p0
    by blast
  from a have a': "fill_output greedy_wrap
       (ServeClient_init\<lparr>text_lines :=
          [''a very long sentence exceeding fifty characters in total length'',
           '' and then some more words to fill a third line'']\<rparr>) []
     = ''total length and then some more words to fill a third line''"
    by simp
  from w3 a' w1 b w0 c show ?thesis
    by blast
qed

subsection \<open>The loop\<close>

lemma length_py_slice_from_le: "length (py_slice_from k xs) \<le> length xs"
  by (simp add: py_slice_from_def)

lemma clip_audio_fields:
  "frames_offset (clip_audio fs s) = frames_offset s"
  "frames_np (clip_audio fs s) = frames_np s"
  "text_lines (clip_audio fs s) = text_lines s"
  "t_start (clip_audio fs s) = t_start s"
  "exit_flag (clip_audio fs s) = exit_flag s"
  "same_output_threshold (clip_audio fs s) = same_output_threshold s"
  "prev_out (clip_audio fs s) = prev_out s"
  "current_out (clip_audio fs s) = current_out s"
  by (simp_all add: clip_audio_def)

lemma clip_audio_cursor:
  assumes "frames_offset s \<le> timestamp_offset s"
  shows "frames_offset s \<le> timestamp_offset (clip_audio fs s)"
proof (cases "25 * RATE < length (py_slice_from
                 (py_int ((timestamp_offset s - frames_offset s) * real RATE)) fs)")
  case True
  with length_py_slice_from_le [of "py_int ((timestamp_offset s - frames_offset s) * real RATE)" fs]
  have "25 * RATE < length fs" by linarith
  then have "5 \<le> real (length fs) / real RATE"
    by (simp add: RATE_def)
  with True show ?thesis
    by (simp add: clip_audio_def)
next
  case False
  with assms show ?thesis
    by (simp add: clip_audio_def)
qed

lemma no_speech_fields:
  "timestamp_offset (snd (no_speech wrap clk s)) = timestamp_offset s"
  "frames_offset (snd (no_speech wrap clk s)) = frames_offset s"
  "frames_np (snd (no_speech wrap clk s)) = frames_np s"
  "exit_flag (snd (no_speech wrap clk s)) = exit_flag s"
  "same_output_threshold (snd (no_speech wrap clk s)) = same_output_threshold s"
  "prev_out (snd (no_speech wrap clk s)) = prev_out s"
  "current_out (snd (no_speech wrap clk s)) = current_out s"
  by (simp_all add: no_speech_def Let_def)




text \<open>The sessions of the examples, evaluated.\<close>

lemmas iter_eval =
  speech_to_text_iter_def add_frames_def evict_frames_def ServeClient_init_def clip_audio_def
  input_bytes_def py_slice_from_def py_int_def RATE_def Let_def initial_prompt_def
  update_segments_def count_repeat_def promote_or_remember_def fill_output_def unwrapped_def
  pick_previous_segments_def wrapper_width_def no_speech_def clock_at_def frame_def
  show_prev_out_thresh_def add_pause_thresh_def strip_Nil

lemma one_frame_eq:
  "add_frames frame ServeClient_init = ServeClient_init\<lparr>frames_np := Some (replicate 200000 0)\<rparr>"
  by (simp add: add_frames_def evict_frames_def ServeClient_init_def frame_def)

lemma strip_hi: "strip ''hi'' = ''hi''"
  by (simp add: strip_def py_isspace_def)


lemma hi_twice_eq:
  "hi_twice = ServeClient_init\<lparr>frames_np := Some (replicate 200000 0),
     current_out := ''hi'', prev_out := ''hi'', same_output_threshold := 1\<rparr>"
  unfolding hi_twice_def one_frame_eq
  by (simp add: iter_eval hi_engine_def strip_hi)

lemma overflow_state_eq:
  "overflow_state = ServeClient_init\<lparr>frames_np := Some (replicate 520000 0),
     timestamp_offset := 65 / 2, frames_offset := 45\<rparr>"
  unfolding overflow_state_def three_frames_eq
  by (simp add: iter_eval failing_engine_def replicate_add [symmetric])

subsection \<open>The window handed to the engine\<close>

text \<open>When the cursor is not behind the buffer, the guard does what its comment says.\<close>

lemma window_bounded_in_buffer:
  assumes fs: "frames_np s = Some fs"
    and inv: "frames_offset s \<le> timestamp_offset s"
  shows "length (submitted_window s) \<le> 25 * RATE"
proof (cases "25 * RATE < length (py_slice_from
                 (py_int ((timestamp_offset s - frames_offset s) * real RATE)) fs)")
  case True
  with length_py_slice_from_le [of "py_int ((timestamp_offset s - frames_offset s) * real RATE)" fs]
  have big: "400000 < length fs" by (simp add: RATE_def)
  then have e: "real (length fs) - 80000 = real (length fs - 80000)"
    by simp
  have "py_int (real (length fs - 80000)) = int (length fs - 80000)"
    by (simp add: py_int_def)
  then have idx: "py_int (real (length fs) - 80000) = int (length fs - 80000)"
    by (simp only: e)
  have pos: "max 0 (real (length fs) - 80000) = real (length fs) - 80000"
    using big by simp
  have "length (py_slice_from (int (length fs - 80000)) fs) = 80000"
    using big by (simp add: py_slice_from_def)
  then have "length (py_slice_from (py_int (max 0 (real (length fs) - 80000))) fs) = 80000"
    by (simp only: pos idx)
  with True fs show ?thesis
    by (simp add: submitted_window_def clip_audio_def input_bytes_def RATE_def)
next
  case False
  have "max 0 ((timestamp_offset s - frames_offset s) * real RATE)
          = (timestamp_offset s - frames_offset s) * real RATE"
    using inv by (simp add: RATE_def)
  with False fs show ?thesis
    by (simp add: submitted_window_def clip_audio_def input_bytes_def)
qed

text \<open>
  Claim C3 says that the window handed to the engine is never longer than 25 seconds.
  Three frames of 12.5 seconds arrive, a cycle clips the window (\<open>timestamp_offset\<close>
  becomes 32.5) and the engine raises, two more frames arrive and the second append
  evicts (\<open>frames_offset\<close> becomes 45). The test of line 142 then slices from the negative
  index \<open>-200000\<close>, sees 12.5 seconds and does not clip, while line 146 clamps the start
  to 0: the next cycle hands all 520000 buffered samples, 32.5 seconds, to the engine.
\<close>

theorem C3_window_overflow:
  "timestamp_offset overflow_state = 65 / 2
   \<and> frames_offset overflow_state = 45
   \<and> buffered overflow_state = 520000
   \<and> length (submitted_window overflow_state) = 520000
   \<and> 25 * RATE < length (submitted_window overflow_state)
   \<and> speech_to_text_iter unwrapped (clock_at 0) long_window_probe overflow_state
       = (Raised, overflow_state)"
  by (simp add: overflow_state_eq buffered_def submitted_window_def iter_eval
      long_window_probe_def)

subsection \<open>The cursor and the buffer origin\<close>

lemma update_segments_frames_offset:
  "frames_offset (snd (update_segments wrap segments duration s)) = frames_offset s"
  by (simp add: update_segments_def count_repeat_def promote_or_remember_def Let_def
      split: prod.splits option.splits)

lemma update_segments_cursor:
  assumes "list_all (\<lambda>g. 0 \<le> seg_end g) segments" and "0 \<le> duration"
  shows "timestamp_offset s \<le> timestamp_offset (snd (update_segments wrap segments duration s))"
proof (cases "length segments > 1")
  case True
  then have "butlast segments \<noteq> []"
    by (cases segments) (auto split: if_splits)
  then have "last (butlast segments) \<in> set segments"
    by (meson in_set_butlastD last_in_set)
  with assms(1) have "0 \<le> seg_end (last (butlast segments))"
    by (simp add: list_all_iff)
  with True assms(2) \<open>butlast segments \<noteq> []\<close> show ?thesis
    by (simp add: update_segments_def count_repeat_def promote_or_remember_def Let_def
        complete_segments_eq)
next
  case False
  with assms(2) show ?thesis
    by (simp add: update_segments_def count_repeat_def promote_or_remember_def Let_def)
qed

lemma iter_snd:
  "snd (speech_to_text_iter wrap clk transcribe s) =
     (if exit_flag s then s
      else case frames_np s of
        None \<Rightarrow> s
      | Some fs \<Rightarrow>
          if real (length (input_bytes fs (clip_audio fs s))) / real RATE < 1
          then clip_audio fs s
          else
            (case transcribe (input_bytes fs (clip_audio fs s))
                    (initial_prompt (clip_audio fs s)) of
               Engine_Raises \<Rightarrow> clip_audio fs s
             | Engine_Returns result \<Rightarrow>
                 if result \<noteq> []
                 then snd (update_segments wrap result
                        (real (length (input_bytes fs (clip_audio fs s))) / real RATE)
                        ((clip_audio fs s)\<lparr>t_start := None\<rparr>))
                 else snd (no_speech wrap clk (clip_audio fs s))))"
  by (auto simp add: speech_to_text_iter_def Let_def
      split: option.splits engine_result.splits prod.splits sum.splits)

lemma iter_cursor:
  assumes inv: "frames_offset s \<le> timestamp_offset s"
    and eng: "\<forall>w p. nonneg_ends (transcribe w p)"
  shows "frames_offset (snd (speech_to_text_iter wrap clk transcribe s))
           \<le> timestamp_offset (snd (speech_to_text_iter wrap clk transcribe s))"
proof (cases "exit_flag s")
  case True
  with inv show ?thesis by (simp add: speech_to_text_iter_def)
next
  case False
  show ?thesis
  proof (cases "frames_np s")
    case None
    with False inv show ?thesis by (simp add: speech_to_text_iter_def)
  next
    case (Some fs)
    let ?c = "clip_audio fs s"
    let ?w = "input_bytes fs ?c"
    let ?d = "real (length ?w) / real RATE"
    have c: "frames_offset ?c \<le> timestamp_offset ?c"
      using clip_audio_cursor [OF inv, of fs] by (simp add: clip_audio_fields)
    have d: "0 \<le> ?d" by simp
    show ?thesis
    proof (cases "transcribe ?w (initial_prompt ?c)")
      case Engine_Raises
      with False Some c show ?thesis
        by (simp add: iter_snd)
    next
      case (Engine_Returns result)
      with eng have nn: "list_all (\<lambda>g. 0 \<le> seg_end g) result"
        by (metis engine_result.simps(5) nonneg_ends_def)
      have u: "frames_offset ?c
          \<le> timestamp_offset (snd (update_segments wrap result ?d (?c\<lparr>t_start := None\<rparr>)))"
        using update_segments_cursor [OF nn d, of "?c\<lparr>t_start := None\<rparr>" wrap] c by simp
      from False Some Engine_Returns c u show ?thesis
        by (simp add: iter_snd no_speech_fields update_segments_frames_offset
            clip_audio_fields)
    qed
  qed
qed

text \<open>
  Claim C1 says that \<open>timestamp_offset\<close> is never behind \<open>frames_offset\<close>. After five
  frames of 12.5 seconds and no cycle, the fifth append has evicted: \<open>frames_offset\<close> is
  45 and \<open>timestamp_offset\<close> is still 0.
\<close>

theorem C1_counterexample:
  "timestamp_offset five_frames = 0
   \<and> frames_offset five_frames = 45
   \<and> \<not> frames_offset five_frames \<le> timestamp_offset five_frames"
  by (simp add: five_frames_eq ServeClient_init_def)

text \<open>
  Claim C1, amended. \<open>timestamp_offset\<close> is at or after \<open>frames_offset\<close> in the initial
  state, and the relation is preserved by every append that does not evict (at most 45
  seconds buffered) and by every iteration of the loop whose engine returns segments
  with non-negative end offsets. An append never moves \<open>timestamp_offset\<close> and what it
  keeps of the buffer does not depend on \<open>timestamp_offset\<close>: the eviction does not
  consult it.
\<close>

theorem C1_cursor_preserved:
  assumes inv: "frames_offset s \<le> timestamp_offset s"
  shows "frames_offset ServeClient_init \<le> timestamp_offset ServeClient_init
       \<and> timestamp_offset (add_frames f s) = timestamp_offset s
       \<and> frames_np (add_frames f (s\<lparr>timestamp_offset := t\<rparr>)) = frames_np (add_frames f s)
       \<and> (buffered s \<le> 45 * RATE
            \<longrightarrow> frames_offset (add_frames f s) \<le> timestamp_offset (add_frames f s))
       \<and> ((\<forall>w p. nonneg_ends (transcribe w p))
            \<longrightarrow> frames_offset (snd (speech_to_text_iter wrap clk transcribe s))
                  \<le> timestamp_offset (snd (speech_to_text_iter wrap clk transcribe s)))"
proof -
  have a: "frames_offset ServeClient_init \<le> timestamp_offset ServeClient_init"
    by (simp add: ServeClient_init_def)
  have b: "timestamp_offset (add_frames f s) = timestamp_offset s"
    by (simp add: add_frames_def evict_frames_def Let_def split: option.splits)
  have c: "buffered s \<le> 45 * RATE
            \<longrightarrow> frames_offset (add_frames f s) \<le> timestamp_offset (add_frames f s)"
    using inv
    by (simp add: add_frames_def evict_frames_def buffered_def Let_def split: option.splits)
  have d: "frames_np (add_frames f (s\<lparr>timestamp_offset := t\<rparr>)) = frames_np (add_frames f s)"
    by (simp add: add_frames_def evict_frames_def Let_def split: option.splits)
  from a b c d iter_cursor [OF inv, of transcribe wrap clk] show ?thesis
    by blast
qed

theorem C1_cursor_preserved_witness:
  "frames_offset three_frames \<le> timestamp_offset three_frames
   \<and> buffered three_frames \<le> 45 * RATE
   \<and> (\<forall>w p. nonneg_ends (hello_world_engine w p))
   \<and> frames_offset (add_frames frame three_frames)
       \<le> timestamp_offset (add_frames frame three_frames)
   \<and> frames_offset (snd (speech_to_text_iter unwrapped (clock_at 0) hello_world_engine
         three_frames))
       \<le> timestamp_offset (snd (speech_to_text_iter unwrapped (clock_at 0) hello_world_engine
         three_frames))"
proof -
  have h: "frames_offset three_frames \<le> timestamp_offset three_frames"
    by (simp add: three_frames_eq ServeClient_init_def)
  have b: "buffered three_frames \<le> 45 * RATE"
    by (simp add: three_frames_eq buffered_def RATE_def)
  have e: "\<forall>w p. nonneg_ends (hello_world_engine w p)"
    by (simp add: nonneg_ends_def hello_world_engine_def)
  from C1_cursor_preserved [OF h, where f = frame and transcribe = hello_world_engine
      and wrap = unwrapped and clk = "clock_at 0"] h b e
  show ?thesis
    by blast
qed

subsection \<open>Repeat detection on empty results\<close>

text \<open>
  Claim C6 says that a cycle with an empty result resets the repeat count and replaces
  the remembered candidate. After two cycles returning \<open>hi\<close> the count is 1 and the
  remembered candidate is \<open>hi\<close>; a cycle in which the engine returns no segment leaves
  both as they are.
\<close>

theorem C6_counterexample:
  "same_output_threshold hi_twice = 1
   \<and> prev_out hi_twice = ''hi''
   \<and> fst (speech_to_text_iter unwrapped (clock_at 1) silent_engine hi_twice) = Sent [] []
   \<and> same_output_threshold (snd (speech_to_text_iter unwrapped (clock_at 1) silent_engine hi_twice)) = 1
   \<and> prev_out (snd (speech_to_text_iter unwrapped (clock_at 1) silent_engine hi_twice)) = ''hi''"
  by (simp add: hi_twice_eq iter_eval silent_engine_def)

text \<open>
  Claim C6, amended. The repeat detection is part of \<open>update_segments\<close>, which the loop
  calls only for a non-empty result: on a cycle where the engine returns no segment the
  repeat count, the remembered candidate and the provisional text are left unchanged.
\<close>

theorem C6_empty_result_leaves_count:
  assumes "\<forall>w p. transcribe w p = Engine_Returns []"
  shows "same_output_threshold (snd (speech_to_text_iter wrap clk transcribe s))
           = same_output_threshold s
       \<and> prev_out (snd (speech_to_text_iter wrap clk transcribe s)) = prev_out s
       \<and> current_out (snd (speech_to_text_iter wrap clk transcribe s)) = current_out s"
  using assms
  by (simp add: iter_snd clip_audio_fields no_speech_fields split: option.splits)


theorem C6_empty_result_leaves_count_witness:
  "(\<forall>w p. silent_engine w p = Engine_Returns [])
   \<and> same_output_threshold (snd (speech_to_text_iter unwrapped (clock_at 1) silent_engine
         hi_twice)) = same_output_threshold hi_twice
   \<and> prev_out (snd (speech_to_text_iter unwrapped (clock_at 1) silent_engine hi_twice))
       = prev_out hi_twice
   \<and> current_out (snd (speech_to_text_iter unwrapped (clock_at 1) silent_engine hi_twice))
       = current_out hi_twice"
proof -
  have h: "\<forall>w p. silent_engine w p = Engine_Returns []"
    by (simp add: silent_engine_def)
  from C6_empty_result_leaves_count [OF h, of unwrapped "clock_at 1" hi_twice] h
  show ?thesis
    by blast
qed

subsection \<open>The pause sentinel\<close>








subsection \<open>Stall promotion\<close>

lemma feed_append:
  "feed wrap (xs @ ys) s =
     (fst (feed wrap xs s) @ fst (feed wrap ys (snd (feed wrap xs s))),
      snd (feed wrap ys (snd (feed wrap xs s))))"
proof (induction xs arbitrary: s)
  case Nil
  then show ?case by simp
next
  case (Cons a xs)
  then show ?case
    by (cases a) (simp add: case_prod_unfold Let_def)
qed

lemma single_new:
  assumes "strip (seg_text g) \<noteq> strip (prev_out s)"
  shows "update_segments wrap [g] d s =
           (Inr (fill_output wrap s (seg_text g), []),
            s\<lparr>current_out := seg_text g, prev_out := seg_text g, same_output_threshold := 0\<rparr>)"
  using assms
  by (simp add: update_segments_def count_repeat_def promote_or_remember_def Let_def
      fill_output_def)

lemma single_repeat:
  assumes "strip (seg_text g) = strip (prev_out s)" and "seg_text g \<noteq> []"
    and "same_output_threshold s < 5"
  shows "update_segments wrap [g] d s =
           (Inr (fill_output wrap s (seg_text g), []),
            s\<lparr>current_out := seg_text g, prev_out := seg_text g,
              same_output_threshold := same_output_threshold s + 1\<rparr>)"
  using assms
  by (simp add: update_segments_def count_repeat_def promote_or_remember_def Let_def
      fill_output_def)

lemma single_promote:
  assumes "strip (seg_text g) = strip (prev_out s)" and "seg_text g \<noteq> []"
    and "5 \<le> same_output_threshold s"
    and "text_lines s = [] \<or> lower (strip (last (text_lines s))) \<noteq> lower (strip (seg_text g))"
  shows "update_segments wrap [g] d s =
           (Inr (fill_output wrap (s\<lparr>text_lines := text_lines s @ [seg_text g]\<rparr>) [],
                 [\<lparr>line_start = timestamp_offset s, line_end = timestamp_offset s + d,
                   line_text = seg_text g\<rparr>]),
            s\<lparr>text_lines := text_lines s @ [seg_text g], current_out := [],
              same_output_threshold := 0, timestamp_offset := timestamp_offset s + d\<rparr>)"
  using assms
  by (auto simp add: update_segments_def count_repeat_def promote_or_remember_def Let_def
      fill_output_def)

lemma feed_repeats:
  assumes "\<forall>(g, d) \<in> set cs. strip (seg_text g) = c" and "c \<noteq> []"
    and "strip (prev_out s) = c" and "same_output_threshold s + length cs \<le> 5"
  shows "fst (feed wrap (single_cycles cs) s) = []
       \<and> text_lines (snd (feed wrap (single_cycles cs) s)) = text_lines s
       \<and> timestamp_offset (snd (feed wrap (single_cycles cs) s)) = timestamp_offset s
       \<and> same_output_threshold (snd (feed wrap (single_cycles cs) s))
           = same_output_threshold s + length cs
       \<and> strip (prev_out (snd (feed wrap (single_cycles cs) s))) = c"
  using assms
proof (induction cs arbitrary: s)
  case Nil
  then show ?case by (simp add: single_cycles_def)
next
  case (Cons a cs)
  obtain g d where a: "a = (g, d)" by (cases a)
  let ?s' = "s\<lparr>current_out := seg_text g, prev_out := seg_text g,
              same_output_threshold := same_output_threshold s + 1\<rparr>"
  from Cons.prems a have g: "strip (seg_text g) = c" by simp
  with Cons.prems(2) have ne: "seg_text g \<noteq> []"
    by (auto simp add: strip_Nil)
  have u: "update_segments wrap [g] d s = (Inr (fill_output wrap s (seg_text g), []), ?s')"
    using g ne Cons.prems by (intro single_repeat) simp_all
  have "fst (feed wrap (single_cycles cs) ?s') = []
       \<and> text_lines (snd (feed wrap (single_cycles cs) ?s')) = text_lines ?s'
       \<and> timestamp_offset (snd (feed wrap (single_cycles cs) ?s')) = timestamp_offset ?s'
       \<and> same_output_threshold (snd (feed wrap (single_cycles cs) ?s'))
           = same_output_threshold ?s' + length cs
       \<and> strip (prev_out (snd (feed wrap (single_cycles cs) ?s'))) = c"
    using Cons.prems g by (intro Cons.IH) simp_all
  then show ?case
    using u a by (simp add: single_cycles_def case_prod_unfold)
qed


text \<open>
  Claim C4 says that six consecutive cycles with the same candidate make the repeat
  count exceed 5 and commit the candidate. From the initial state, six cycles returning
  the single segment \<open>hello\<close> leave the count at 5 (the first cycle only remembers the
  candidate), with nothing committed, nothing emitted and the offset unmoved.
\<close>

theorem C4_counterexample:
  "fst (feed unwrapped (single_cycles (replicate 6 hello_cycle)) ServeClient_init) = []
   \<and> text_lines (snd (feed unwrapped (single_cycles (replicate 6 hello_cycle))
         ServeClient_init)) = []
   \<and> timestamp_offset (snd (feed unwrapped (single_cycles (replicate 6 hello_cycle))
         ServeClient_init)) = 0
   \<and> same_output_threshold (snd (feed unwrapped (single_cycles (replicate 6 hello_cycle))
         ServeClient_init)) = 5"
proof -
  let ?s1 = "ServeClient_init\<lparr>current_out := ''hello'', prev_out := ''hello'',
               same_output_threshold := 0\<rparr>"
  have six: "replicate 6 hello_cycle = hello_cycle # replicate 5 hello_cycle"
    by (simp add: eval_nat_numeral)
  have st: "strip ''hello'' = ''hello''"
    by (simp add: strip_def py_isspace_def)
  have u: "update_segments unwrapped [fst hello_cycle] (snd hello_cycle) ServeClient_init
             = (Inr (fill_output unwrapped ServeClient_init ''hello'', []), ?s1)"
    using single_new [of "fst hello_cycle" ServeClient_init unwrapped "snd hello_cycle"]
    by (simp add: hello_cycle_def ServeClient_init_def st strip_Nil)
  have r: "fst (feed unwrapped (single_cycles (replicate 5 hello_cycle)) ?s1) = []
       \<and> text_lines (snd (feed unwrapped (single_cycles (replicate 5 hello_cycle)) ?s1))
           = text_lines ?s1
       \<and> timestamp_offset (snd (feed unwrapped (single_cycles (replicate 5 hello_cycle)) ?s1))
           = timestamp_offset ?s1
       \<and> same_output_threshold (snd (feed unwrapped (single_cycles (replicate 5 hello_cycle)) ?s1))
           = same_output_threshold ?s1 + length (replicate 5 hello_cycle)
       \<and> strip (prev_out (snd (feed unwrapped (single_cycles (replicate 5 hello_cycle)) ?s1)))
           = ''hello''"
    by (rule feed_repeats) (simp_all add: hello_cycle_def st)
  have f: "feed unwrapped (single_cycles (replicate 6 hello_cycle)) ServeClient_init
             = feed unwrapped (single_cycles (replicate 5 hello_cycle)) ?s1"
    using u by (simp add: six single_cycles_def case_prod_unfold)
  have t: "text_lines ?s1 = []" "timestamp_offset ?s1 = 0" "same_output_threshold ?s1 = 0"
    by (simp_all add: ServeClient_init_def)
  show ?thesis
    using r unfolding f t by simp
qed

text \<open>
  Claim C4, amended. Feeding \<open>update_segments\<close> single-segment results whose texts are
  equal after trimming (the comparison is case-sensitive) and non-empty, on 7 consecutive
  cycles starting where the remembered candidate differs, leaves the repeat count at 5
  with nothing committed after the sixth cycle and makes it exceed 5 on the seventh.
  Provided the last committed line does not already equal the candidate (trimmed,
  lower-cased), the seventh cycle commits that text exactly once, emits a line spanning
  \<open>[timestamp_offset, timestamp_offset + duration]\<close> of that cycle, advances
  \<open>timestamp_offset\<close> by the whole duration, clears the provisional text and resets the
  count to 0.
\<close>

theorem C4_seven_cycles:
  assumes six: "length cs = 6"
    and same: "\<forall>(g, d) \<in> set (cs @ [(g7, d7)]). strip (seg_text g) = c"
    and cand: "c \<noteq> []"
    and fresh: "strip (prev_out s) \<noteq> c"
    and dedup: "text_lines s = [] \<or> lower (strip (last (text_lines s))) \<noteq> lower c"
  shows "fst (feed wrap (single_cycles cs) s) = []
       \<and> text_lines (snd (feed wrap (single_cycles cs) s)) = text_lines s
       \<and> timestamp_offset (snd (feed wrap (single_cycles cs) s)) = timestamp_offset s
       \<and> same_output_threshold (snd (feed wrap (single_cycles cs) s)) = 5
       \<and> fst (feed wrap (single_cycles (cs @ [(g7, d7)])) s)
           = [\<lparr>line_start = timestamp_offset s, line_end = timestamp_offset s + d7,
               line_text = seg_text g7\<rparr>]
       \<and> text_lines (snd (feed wrap (single_cycles (cs @ [(g7, d7)])) s))
           = text_lines s @ [seg_text g7]
       \<and> timestamp_offset (snd (feed wrap (single_cycles (cs @ [(g7, d7)])) s))
           = timestamp_offset s + d7
       \<and> same_output_threshold (snd (feed wrap (single_cycles (cs @ [(g7, d7)])) s)) = 0
       \<and> current_out (snd (feed wrap (single_cycles (cs @ [(g7, d7)])) s)) = []"
proof -
  from six obtain a rest where cs: "cs = a # rest" and rest: "length rest = 5"
    by (cases cs) simp_all
  obtain g1 d1 where a: "a = (g1, d1)" by (cases a)
  let ?s1 = "s\<lparr>current_out := seg_text g1, prev_out := seg_text g1,
               same_output_threshold := 0\<rparr>"
  let ?s6 = "snd (feed wrap (single_cycles rest) ?s1)"
  from same cs a have g1: "strip (seg_text g1) = c" by simp
  from same have g7: "strip (seg_text g7) = c" by simp
  from g7 cand have ne7: "seg_text g7 \<noteq> []" by (auto simp add: strip_Nil)
  have u1: "update_segments wrap [g1] d1 s = (Inr (fill_output wrap s (seg_text g1), []), ?s1)"
    using g1 fresh by (intro single_new) simp
  have r: "fst (feed wrap (single_cycles rest) ?s1) = []
       \<and> text_lines ?s6 = text_lines ?s1
       \<and> timestamp_offset ?s6 = timestamp_offset ?s1
       \<and> same_output_threshold ?s6 = same_output_threshold ?s1 + length rest
       \<and> strip (prev_out ?s6) = c"
    using same cand g1 rest cs by (intro feed_repeats) simp_all
  have f6: "feed wrap (single_cycles cs) s = feed wrap (single_cycles rest) ?s1"
    using u1 by (simp add: cs a single_cycles_def case_prod_unfold)
  have u7: "update_segments wrap [g7] d7 ?s6 =
           (Inr (fill_output wrap (?s6\<lparr>text_lines := text_lines ?s6 @ [seg_text g7]\<rparr>) [],
                 [\<lparr>line_start = timestamp_offset ?s6, line_end = timestamp_offset ?s6 + d7,
                   line_text = seg_text g7\<rparr>]),
            ?s6\<lparr>text_lines := text_lines ?s6 @ [seg_text g7], current_out := [],
              same_output_threshold := 0, timestamp_offset := timestamp_offset ?s6 + d7\<rparr>)"
    using r g7 ne7 rest dedup by (intro single_promote) simp_all
  have f7: "feed wrap (single_cycles (cs @ [(g7, d7)])) s
          = (fst (feed wrap (single_cycles cs) s)
               @ fst (feed wrap [([g7], d7)] (snd (feed wrap (single_cycles cs) s))),
             snd (feed wrap [([g7], d7)] (snd (feed wrap (single_cycles cs) s))))"
    by (simp add: single_cycles_def feed_append)
  show ?thesis
    using r rest by (simp add: f7 f6 u7)
qed


theorem C4_seven_cycles_witness:
  "length (replicate 6 hello_cycle) = 6
   \<and> strip (seg_text (fst hello_cycle)) = ''hello''
   \<and> strip (prev_out ServeClient_init) \<noteq> ''hello''
   \<and> text_lines ServeClient_init = []
   \<and> fst (feed unwrapped (single_cycles (replicate 6 hello_cycle
           @ [(\<lparr>seg_text = ''hello'', seg_start = 0, seg_end = 2\<rparr>, 2)])) ServeClient_init)
       = [\<lparr>line_start = 0, line_end = 2, line_text = ''hello''\<rparr>]
   \<and> text_lines (snd (feed unwrapped (single_cycles (replicate 6 hello_cycle
           @ [(\<lparr>seg_text = ''hello'', seg_start = 0, seg_end = 2\<rparr>, 2)])) ServeClient_init))
       = [''hello'']
   \<and> timestamp_offset (snd (feed unwrapped (single_cycles (replicate 6 hello_cycle
           @ [(\<lparr>seg_text = ''hello'', seg_start = 0, seg_end = 2\<rparr>, 2)])) ServeClient_init))
       = 2
   \<and> same_output_threshold (snd (feed unwrapped (single_cycles (replicate 6 hello_cycle
           @ [(\<lparr>seg_text = ''hello'', seg_start = 0, seg_end = 2\<rparr>, 2)])) ServeClient_init))
       = 0"
proof -
  have st: "strip ''hello'' = ''hello''"
    by (simp add: strip_def py_isspace_def)
  have h1: "length (replicate 6 hello_cycle) = 6"
    by simp
  have h2: "\<forall>(g, d) \<in> set (replicate 6 hello_cycle
           @ [(\<lparr>seg_text = ''hello'', seg_start = 0, seg_end = 2\<rparr>, 2)]).
         strip (seg_text g) = ''hello''"
    by (simp add: hello_cycle_def st)
  have h3: "''hello'' \<noteq> []"
    by simp
  have h4: "strip (prev_out ServeClient_init) \<noteq> ''hello''"
    by (simp add: ServeClient_init_def strip_Nil)
  have h5: "text_lines ServeClient_init = []"
    by (simp add: ServeClient_init_def)
  have h5': "text_lines ServeClient_init = []
      \<or> lower (strip (last (text_lines ServeClient_init))) \<noteq> lower ''hello''"
    using h5 by simp
  have t: "timestamp_offset ServeClient_init = 0"
    by (simp add: ServeClient_init_def)
  have h6: "strip (seg_text (fst hello_cycle)) = ''hello''"
    by (simp add: hello_cycle_def st)
  from C4_seven_cycles [OF h1 h2 h3 h4 h5', of unwrapped] h1 h6 h4 h5 t show ?thesis
    by simp
qed

end
